theory Spec2Isabelle
  imports Main "HOL-Library.Option_ord" "HOL-Library.Word"
begin

section \<open>Daily GMV job: data model\<close>

text \<open>
  The job of \<^verbatim>\<open>q2/app/main.py\<close> reads three bronze tables, keeps the newest version of
  every purchase, joins, filters, sums per day and subsidiary, and loads the result into
  the table \<open>silver.fct_gmv_diario\<close>. A DataFrame is modelled as the list of
  its rows; every column is nullable, as columns of Hive tables are, so a cell is an
  \<open>option\<close> with \<open>None\<close> for SQL NULL. Dates and timestamps are numbers (a day number, a
  clock reading). An amount is a BIGINT, a 64-bit integer in two's complement, and
  arithmetic on amounts wraps around as the engine's does. The processing date and the
  value of \<open>current_timestamp()\<close> are parameters.
\<close>

type_synonym date = nat
type_synonym timestamp = nat
type_synonym bigint = "64 word"

text \<open>
  Modelled from the spec: the schemas of \<open>bronze.purchase\<close>, \<open>bronze.purchase_extra_info\<close>
  and \<open>bronze.product_item\<close>, which the source reads and does not declare. A raw record
  has a natural key, a version timestamp, a status, a release date, a monetary measure and
  a business unit. The columns are the ones the job names: the join keys,
  \<open>transaction_datetime\<close> and \<open>transaction_date\<close> on every table; the purchase (the
  primary record) carries \<open>release_date\<close>, \<open>purchase_status\<close> and \<open>purchase_total_value\<close>,
  and the extra information (the enrichment record) carries \<open>subsidiary\<close>.
\<close>

record purchase =
  purchase_id :: "nat option"
  purchase_partition :: "nat option"
  transaction_datetime :: "timestamp option"
  transaction_date :: "date option"
  release_date :: "date option"
  purchase_status :: "string option"
  purchase_total_value :: "bigint option"

record purchase_extra_info =
  info_purchase_id :: "nat option"
  info_purchase_partition :: "nat option"
  info_transaction_datetime :: "timestamp option"
  info_transaction_date :: "date option"
  info_subsidiary :: "string option"

record product_item =
  item_purchase_id :: "nat option"
  item_transaction_datetime :: "timestamp option"
  item_transaction_date :: "date option"
  item_purchase_value :: "bigint option"

text \<open>A row of \<open>silver.fct_gmv_diario\<close>, which is also a row of the computed snapshot.\<close>

record gmv_row =
  gmv_date :: "date option"
  subsidiary :: "string option"
  gmv_total_day :: "bigint option"
  calculation_timestamp :: timestamp
  is_latest :: bool

record delta_table =
  partition_columns :: "string list"
  table_rows :: "gmv_row list"

record catalog =
  bronze_purchase :: "purchase list option"
  bronze_product_item :: "product_item list option"
  bronze_purchase_extra_info :: "purchase_extra_info list option"
  silver_fct_gmv_diario :: "delta_table option"

datatype etl_error =
  TableNotFound string
  | TableAlreadyExists string
  | NotADeltaTable string
  | MultipleSourceRowsMatched

section \<open>SQL expressions\<close>

text \<open>
  Comparison and conjunction are three-valued: a comparison with NULL is NULL, and a
  filter, a join or a merge keeps a row only where its condition is true.
\<close>

definition sql_eq :: "'a option \<Rightarrow> 'a option \<Rightarrow> bool option" where
  "sql_eq a b = (case a of None \<Rightarrow> None | Some x \<Rightarrow> (case b of None \<Rightarrow> None | Some y \<Rightarrow> Some (x = y)))"

definition sql_and :: "bool option \<Rightarrow> bool option \<Rightarrow> bool option" where
  "sql_and a b =
     (if a = Some False \<or> b = Some False then Some False
      else if a = Some True \<and> b = Some True then Some True
      else None)"

definition is_not_null :: "'a option \<Rightarrow> bool option" where
  "is_not_null a = Some (a \<noteq> None)"

definition is_true :: "bool option \<Rightarrow> bool" where
  "is_true c = (c = Some True)"

text \<open>
  \<open>sum\<close> over a BIGINT column skips NULL, is NULL when no value is left, and adds in 64
  bits: a sum past the largest value wraps around.
\<close>

definition sql_sum :: "bigint option list \<Rightarrow> bigint option" where
  "sql_sum vs =
     (case List.map_filter (\<lambda>v. v) vs of [] \<Rightarrow> None | x # xs \<Rightarrow> Some (sum_list (x # xs)))"

section \<open>Latest version of every record\<close>

text \<open>
  \<open>row_number().over(Window.partitionBy(keys).orderBy(col(order_key).desc()))\<close>: the number
  of a row is one more than the count of rows of its partition sorted before it. Rows of
  one partition agree on the partition key, NULL included; descending order puts NULL
  last, which is the order of \<open>option\<close> with \<open>None\<close> least. Among rows with the same order
  value the earlier row of the list is sorted first: the list order stands for the
  engine's arbitrary pick.
\<close>

fun row_number_over :: "('r \<Rightarrow> 'k) \<Rightarrow> ('r \<Rightarrow> 'o::linorder) \<Rightarrow> 'r list \<Rightarrow> 'r list \<Rightarrow> ('r \<times> nat) list" where
  "row_number_over key ordk earlier [] = []"
| "row_number_over key ordk earlier (r # later) =
     (r, Suc (length (filter (\<lambda>x. key x = key r \<and> ordk r \<le> ordk x) earlier)
            + length (filter (\<lambda>x. key x = key r \<and> ordk r < ordk x) later)))
     # row_number_over key ordk (earlier @ [r]) later"

definition get_latest_records :: "('r \<Rightarrow> 'k) \<Rightarrow> ('r \<Rightarrow> 'o::linorder) \<Rightarrow> 'r list \<Rightarrow> 'r list" where
  "get_latest_records key ordk df =
     map fst (filter (\<lambda>(r, rn). rn = 1) (row_number_over key ordk [] df))"

text \<open>The same selection with the rows already passed made explicit, for induction.\<close>

definition latest_from :: "('r \<Rightarrow> 'k) \<Rightarrow> ('r \<Rightarrow> 'o::linorder) \<Rightarrow> 'r list \<Rightarrow> 'r list \<Rightarrow> 'r list" where
  "latest_from key ordk earlier df =
     map fst (filter (\<lambda>(r, rn). rn = 1) (row_number_over key ordk earlier df))"

definition purchase_key :: "purchase \<Rightarrow> nat option \<times> nat option" where
  "purchase_key p = (purchase_id p, purchase_partition p)"

definition info_key :: "purchase_extra_info \<Rightarrow> nat option \<times> nat option" where
  "info_key e = (info_purchase_id e, info_purchase_partition e)"

section \<open>Extraction\<close>

definition extract_source_data ::
  "date \<Rightarrow> catalog \<Rightarrow> etl_error + (purchase list \<times> product_item list \<times> purchase_extra_info list)" where
  "extract_source_data processing_date cat =
     (case bronze_purchase cat of
        None \<Rightarrow> Inl (TableNotFound ''bronze.purchase'')
      | Some purchases \<Rightarrow>
     (case bronze_product_item cat of
        None \<Rightarrow> Inl (TableNotFound ''bronze.product_item'')
      | Some items \<Rightarrow>
     (case bronze_purchase_extra_info cat of
        None \<Rightarrow> Inl (TableNotFound ''bronze.purchase_extra_info'')
      | Some infos \<Rightarrow>
          Inr (filter (\<lambda>r. is_true (sql_eq (transaction_date r) (Some processing_date))) purchases,
               filter (\<lambda>r. is_true (sql_eq (item_transaction_date r) (Some processing_date))) items,
               filter (\<lambda>r. is_true (sql_eq (info_transaction_date r) (Some processing_date))) infos))))"

section \<open>Transformation\<close>

text \<open>
  A row of the left join is a purchase with the extra information matched to it, or with
  none: then every column of the right side is NULL.
\<close>

type_synonym joined_row = "purchase \<times> purchase_extra_info option"

definition join_condition :: "purchase \<Rightarrow> purchase_extra_info \<Rightarrow> bool" where
  "join_condition l r =
     is_true (sql_and (sql_eq (purchase_id l) (info_purchase_id r))
                      (sql_eq (purchase_partition l) (info_purchase_partition r)))"

definition left_join :: "purchase list \<Rightarrow> purchase_extra_info list \<Rightarrow> joined_row list" where
  "left_join ls rs =
     concat (map (\<lambda>l. case filter (join_condition l) rs of
                         [] \<Rightarrow> [(l, None)]
                       | m # ms \<Rightarrow> map (\<lambda>r. (l, Some r)) (m # ms)) ls)"

definition joined_subsidiary :: "joined_row \<Rightarrow> string option" where
  "joined_subsidiary j = (case snd j of None \<Rightarrow> None | Some e \<Rightarrow> info_subsidiary e)"

definition gmv_eligible :: "joined_row \<Rightarrow> bool" where
  "gmv_eligible j =
     is_true (sql_and (is_not_null (release_date (fst j)))
                      (sql_eq (purchase_status (fst j)) (Some ''APROVADA'')))"

definition group_key :: "joined_row \<Rightarrow> date option \<times> string option" where
  "group_key j = (release_date (fst j), joined_subsidiary j)"

text \<open>\<open>groupBy("release_date", "subsidiary").agg(sum("purchase_total_value"))\<close>: one row per
  distinct pair of values, NULL being a value of its own.\<close>

definition group_by_sum ::
  "joined_row list \<Rightarrow> ((date option \<times> string option) \<times> bigint option) list" where
  "group_by_sum rows =
     map (\<lambda>g. (g, sql_sum (map (\<lambda>j. purchase_total_value (fst j)) (filter (\<lambda>j. group_key j = g) rows))))
         (remdups (map group_key rows))"

definition transform_gmv_snapshot :: "timestamp \<Rightarrow> purchase list \<Rightarrow> purchase_extra_info list \<Rightarrow> gmv_row list" where
  "transform_gmv_snapshot now purchase_df purchase_extra_info_df =
     (let latest_purchase = get_latest_records purchase_key transaction_datetime purchase_df;
          latest_purchase_info = get_latest_records info_key info_transaction_datetime purchase_extra_info_df;
          joined_df = left_join latest_purchase latest_purchase_info;
          gmv_eligible_purchases = filter gmv_eligible joined_df;
          daily_gmv = group_by_sum gmv_eligible_purchases
      in map (\<lambda>(g, total). \<lparr>gmv_date = fst g, subsidiary = snd g, gmv_total_day = total,
                             calculation_timestamp = now, is_latest = True\<rparr>) daily_gmv)"

section \<open>Load\<close>

definition gmv_key :: "gmv_row \<Rightarrow> date option \<times> string option" where
  "gmv_key r = (gmv_date r, subsidiary r)"

definition merge_condition :: "gmv_row \<Rightarrow> gmv_row \<Rightarrow> bool" where
  "merge_condition target source =
     is_true (sql_and (sql_and (sql_eq (gmv_date target) (gmv_date source))
                               (sql_eq (subsidiary target) (subsidiary source)))
                      (sql_eq (Some (is_latest target)) (Some True)))"

text \<open>
  The merge with its single clause \<open>whenMatchedUpdate(set = {is_latest: false})\<close>. Delta
  refuses a merge in which several source rows match one target row, and then writes
  nothing.
\<close>

definition when_matched_update :: "gmv_row list \<Rightarrow> gmv_row \<Rightarrow> gmv_row" where
  "when_matched_update source t =
     (if list_ex (merge_condition t) source then t\<lparr>is_latest := False\<rparr> else t)"

definition merge_supersede :: "gmv_row list \<Rightarrow> gmv_row list \<Rightarrow> etl_error + gmv_row list" where
  "merge_supersede target source =
     (if list_ex (\<lambda>t. 1 < length (filter (merge_condition t) source)) target
      then Inl MultipleSourceRowsMatched
      else Inr (map (when_matched_update source) target))"

text \<open>
  \<open>DeltaTable.isDeltaTable(spark, identifier)\<close> of delta-core 2.4.0, the version the session
  loads, reads its identifier as a file path and answers whether a Delta table is rooted
  at that path. The job hands it the name of a table of the metastore. Such a table is kept
  under the warehouse directory, not at the relative path spelled like its name, so the
  answer is false whether the table exists or not.
\<close>

definition is_delta_table :: "string \<Rightarrow> bool" where
  "is_delta_table identifier = False"

definition target_table_name :: string where
  "target_table_name = ''silver.fct_gmv_diario''"

text \<open>
  The result of a load is the state of the destination afterwards (\<open>None\<close>: there is no
  such table) and the exception that left the function, if one did. \<open>saveAsTable\<close> without
  a mode refuses a table that exists, and \<open>DeltaTable.forName\<close> one that does not; both
  write nothing then.
\<close>

definition load_data_to_delta ::
  "gmv_row list \<Rightarrow> delta_table option \<Rightarrow> delta_table option \<times> etl_error option" where
  "load_data_to_delta df_to_load target =
     (if df_to_load = [] then (target, None)
      else if \<not> is_delta_table target_table_name then
        (case target of
           None \<Rightarrow> (Some \<lparr>partition_columns = [''gmv_date''], table_rows = df_to_load\<rparr>, None)
         | Some existing \<Rightarrow> (Some existing, Some (TableAlreadyExists target_table_name)))
      else
        (case target of
           None \<Rightarrow> (None, Some (NotADeltaTable target_table_name))
         | Some target_table \<Rightarrow>
             (case merge_supersede (table_rows target_table) df_to_load of
                Inl e \<Rightarrow> (Some target_table, Some e)
              | Inr superseded \<Rightarrow>
                  (Some (target_table\<lparr>table_rows := superseded @ df_to_load\<rparr>), None))))"

section \<open>The job\<close>

definition run :: "date \<Rightarrow> timestamp \<Rightarrow> catalog \<Rightarrow> catalog \<times> etl_error option" where
  "run processing_date now cat =
     (case extract_source_data processing_date cat of
        Inl e \<Rightarrow> (cat, Some e)
      | Inr (purchase_df, _, purchase_extra_info_df) \<Rightarrow>
          (let new_gmv_snapshot = transform_gmv_snapshot now purchase_df purchase_extra_info_df;
               (target', raised) = load_data_to_delta new_gmv_snapshot (silver_fct_gmv_diario cat)
           in (cat\<lparr>silver_fct_gmv_diario := target'\<rparr>, raised)))"


definition unique_keys :: "gmv_row list \<Rightarrow> bool" where
  "unique_keys df = distinct (map gmv_key df)"


section \<open>Rows for concrete runs\<close>

abbreviation gmv_row_of :: "date \<Rightarrow> string option \<Rightarrow> bigint \<Rightarrow> timestamp \<Rightarrow> bool \<Rightarrow> gmv_row" where
  "gmv_row_of day sub amount stamp current \<equiv>
     \<lparr>gmv_date = Some day, subsidiary = sub, gmv_total_day = Some amount,
      calculation_timestamp = stamp, is_latest = current\<rparr>"

abbreviation gmv_table_of :: "gmv_row list \<Rightarrow> delta_table" where
  "gmv_table_of rows \<equiv> \<lparr>partition_columns = [''gmv_date''], table_rows = rows\<rparr>"

abbreviation purchase_of ::
  "nat \<Rightarrow> nat \<Rightarrow> timestamp \<Rightarrow> date \<Rightarrow> date \<Rightarrow> string \<Rightarrow> bigint \<Rightarrow> purchase" where
  "purchase_of pid part stamp day released status amount \<equiv>
     \<lparr>purchase_id = Some pid, purchase_partition = Some part, transaction_datetime = Some stamp,
      transaction_date = Some day, release_date = Some released, purchase_status = Some status,
      purchase_total_value = Some amount\<rparr>"

abbreviation info_of :: "nat \<Rightarrow> nat \<Rightarrow> timestamp \<Rightarrow> date \<Rightarrow> string \<Rightarrow> purchase_extra_info" where
  "info_of pid part stamp day sub \<equiv>
     \<lparr>info_purchase_id = Some pid, info_purchase_partition = Some part,
      info_transaction_datetime = Some stamp, info_transaction_date = Some day,
      info_subsidiary = Some sub\<rparr>"

abbreviation catalog_of ::
  "purchase list \<Rightarrow> product_item list option \<Rightarrow> purchase_extra_info list \<Rightarrow> delta_table option
     \<Rightarrow> catalog" where
  "catalog_of purchases items infos destination \<equiv>
     \<lparr>bronze_purchase = Some purchases, bronze_product_item = items,
      bronze_purchase_extra_info = Some infos, silver_fct_gmv_diario = destination\<rparr>"

abbreviation item_of :: "nat \<Rightarrow> timestamp \<Rightarrow> date \<Rightarrow> bigint \<Rightarrow> product_item" where
  "item_of pid stamp day amount \<equiv>
     \<lparr>item_purchase_id = Some pid, item_transaction_datetime = Some stamp,
      item_transaction_date = Some day, item_purchase_value = Some amount\<rparr>"

section \<open>SQL conditions as plain predicates\<close>

lemma sql_eq_true: "is_true (sql_eq a b) \<longleftrightarrow> a \<noteq> None \<and> a = b"
  by (auto simp: is_true_def sql_eq_def split: option.splits)

section \<open>Rows of one key in a list\<close>

lemma filter_key_empty: "k \<notin> f ` set xs \<Longrightarrow> filter (\<lambda>x. f x = k) xs = []"
  by (induction xs) auto

lemma filter_key_le_one: "distinct (map f xs) \<Longrightarrow> length (filter (\<lambda>x. f x = k) xs) \<le> Suc 0"
  by (induction xs) (auto simp: filter_key_empty)

lemma filter_key_single: "distinct (map f xs) \<Longrightarrow> s \<in> set xs \<Longrightarrow> filter (\<lambda>x. f x = f s) xs = [s]"
proof (induction xs)
  case Nil
  then show ?case by simp
next
  case (Cons a xs)
  show ?case
  proof (cases "a = s")
    case True
    with Cons.prems have "filter (\<lambda>x. f x = f s) xs = []"
      by (simp add: filter_key_empty)
    with True show ?thesis by simp
  next
    case False
    with Cons.prems have "s \<in> set xs" "f a \<noteq> f s" by auto
    with Cons show ?thesis by simp
  qed
qed

section \<open>Properties of the latest-version selection\<close>

lemma latest_from_Nil: "latest_from key ordk pre [] = []"
  by (simp add: latest_from_def)

lemma latest_from_Cons:
  "latest_from key ordk pre (r # post) =
     (if (\<forall>x\<in>set pre. key x = key r \<longrightarrow> ordk x < ordk r) \<and>
         (\<forall>x\<in>set post. key x = key r \<longrightarrow> ordk x \<le> ordk r)
      then [r] else []) @ latest_from key ordk (pre @ [r]) post"
  by (auto simp: latest_from_def filter_empty_conv not_le not_less)

lemma get_latest_from: "get_latest_records key ordk df = latest_from key ordk [] df"
  by (simp add: get_latest_records_def latest_from_def)

text \<open>A selected row comes from the input and no row of its partition is sorted before it.\<close>

lemma latest_from_top:
  "r \<in> set (latest_from key ordk pre xs) \<Longrightarrow>
     r \<in> set xs \<and> (\<forall>x\<in>set pre. key x = key r \<longrightarrow> ordk x < ordk r) \<and>
     (\<forall>x\<in>set xs. key x = key r \<longrightarrow> ordk x \<le> ordk r)"
proof (induction xs arbitrary: pre)
  case Nil
  then show ?case by (simp add: latest_from_Nil)
next
  case (Cons a xs)
  show ?case
  proof (cases "r \<in> set (latest_from key ordk (pre @ [a]) xs)")
    case True
    from Cons.IH[OF True] show ?thesis by (auto intro: less_imp_le)
  next
    case False
    with Cons.prems show ?thesis
      by (auto simp: latest_from_Cons split: if_splits)
  qed
qed

lemma latest_from_distinct: "distinct (map key (latest_from key ordk pre xs))"
proof (induction xs arbitrary: pre)
  case Nil
  then show ?case by (simp add: latest_from_Nil)
next
  case (Cons a xs)
  have "key a \<notin> key ` set (latest_from key ordk (pre @ [a]) xs)"
    if top: "\<forall>x\<in>set xs. key x = key a \<longrightarrow> ordk x \<le> ordk a"
  proof
    assume "key a \<in> key ` set (latest_from key ordk (pre @ [a]) xs)"
    then obtain r where r: "r \<in> set (latest_from key ordk (pre @ [a]) xs)" "key r = key a"
      by auto
    from latest_from_top[OF r(1)] r(2) have "r \<in> set xs" "ordk a < ordk r" by auto
    with top r(2) show False by (auto simp: not_less[symmetric])
  qed
  with Cons.IH[of "pre @ [a]"] show ?case
    by (auto simp: latest_from_Cons)
qed

text \<open>Every partition that still has a row able to win is represented in the result.\<close>

lemma latest_from_covers:
  "\<exists>x\<in>set xs. key x = k \<and> (\<forall>y\<in>set pre. key y = k \<longrightarrow> ordk y < ordk x) \<Longrightarrow>
     \<exists>r\<in>set (latest_from key ordk pre xs). key r = k"
proof (induction xs arbitrary: pre)
  case Nil
  then show ?case by simp
next
  case (Cons a xs)
  then obtain x where x: "x \<in> set (a # xs)" "key x = k"
    "\<forall>y\<in>set pre. key y = k \<longrightarrow> ordk y < ordk x" by blast
  show ?case
  proof (cases "key a = k")
    case False
    with x have "\<exists>x\<in>set xs. key x = k \<and> (\<forall>y\<in>set (pre @ [a]). key y = k \<longrightarrow> ordk y < ordk x)"
      by auto
    from Cons.IH[OF this] show ?thesis by (auto simp: latest_from_Cons)
  next
    case ka: True
    show ?thesis
    proof (cases "(\<forall>x\<in>set pre. key x = key a \<longrightarrow> ordk x < ordk a) \<and>
         (\<forall>x\<in>set xs. key x = key a \<longrightarrow> ordk x \<le> ordk a)")
      case True
      then show ?thesis using ka by (auto simp: latest_from_Cons)
    next
      case nt: False
      have "\<exists>z\<in>set xs. key z = k \<and> (\<forall>y\<in>set (pre @ [a]). key y = k \<longrightarrow> ordk y < ordk z)"
      proof (cases "x \<in> set xs \<and> ordk a < ordk x")
        case True
        with x show ?thesis by auto
      next
        case False
        with x have le: "ordk x \<le> ordk a" by (auto simp: not_less)
        with x(3) ka have pre: "\<forall>y\<in>set pre. key y = k \<longrightarrow> ordk y < ordk a"
          by (auto intro: less_le_trans)
        with nt ka obtain z where z: "z \<in> set xs" "key z = k" "ordk a < ordk z"
          by (auto simp: not_le)
        with pre show ?thesis by (auto intro: less_trans)
      qed
      from Cons.IH[OF this] show ?thesis by (auto simp: latest_from_Cons)
    qed
  qed
qed

lemma get_latest_keys: "key ` set (get_latest_records key ordk df) = key ` set df"
proof
  show "key ` set (get_latest_records key ordk df) \<subseteq> key ` set df"
    using latest_from_top[of _ key ordk "[]" df] by (auto simp: get_latest_from)
  show "key ` set df \<subseteq> key ` set (get_latest_records key ordk df)"
  proof
    fix k assume "k \<in> key ` set df"
    then have "\<exists>x\<in>set df. key x = k \<and> (\<forall>y\<in>set []. key y = k \<longrightarrow> ordk y < ordk x)" by auto
    from latest_from_covers[OF this] show "k \<in> key ` set (get_latest_records key ordk df)"
      by (auto simp: get_latest_from)
  qed
qed

lemma get_latest_subset: "set (get_latest_records key ordk df) \<subseteq> set df"
  using latest_from_top[of _ key ordk "[]" df] by (auto simp: get_latest_from)

lemma get_latest_distinct: "distinct (map key (get_latest_records key ordk df))"
  by (simp add: get_latest_from latest_from_distinct)

text \<open>
  Claim C4. For every input, \<open>get_latest_records\<close> returns exactly one record per distinct
  partition key of the input: the keys of the output are pairwise distinct and are the
  keys of the input, the output has as many rows as the input has distinct keys, it is
  empty exactly when the input is, every output row is an input row, and no row of its
  partition has a greater order value (descending order, NULL last).
\<close>

theorem get_latest_records_one_per_key:
  fixes key :: "'r \<Rightarrow> 'k" and ordk :: "'r \<Rightarrow> 'o::linorder"
  shows "distinct (map key (get_latest_records key ordk df))
    \<and> key ` set (get_latest_records key ordk df) = key ` set df
    \<and> set (get_latest_records key ordk df) \<subseteq> set df
    \<and> length (get_latest_records key ordk df) = card (key ` set df)
    \<and> (get_latest_records key ordk df = [] \<longleftrightarrow> df = [])
    \<and> (\<forall>r\<in>set (get_latest_records key ordk df). \<forall>x\<in>set df. key x = key r \<longrightarrow> ordk x \<le> ordk r)"
proof -
  let ?out = "get_latest_records key ordk df"
  have d: "distinct (map key ?out)" by (rule get_latest_distinct)
  have k: "key ` set ?out = key ` set df" by (rule get_latest_keys)
  have s: "set ?out \<subseteq> set df" by (rule get_latest_subset)
  have "length ?out = length (map key ?out)" by simp
  also have "\<dots> = card (set (map key ?out))" using d by (simp only: distinct_card)
  finally have l: "length ?out = card (key ` set df)" using k by simp
  have e: "?out = [] \<longleftrightarrow> df = []" using k by (metis image_is_empty set_empty)
  have t: "\<forall>r\<in>set ?out. \<forall>x\<in>set df. key x = key r \<longrightarrow> ordk x \<le> ordk r"
    using latest_from_top[of _ key ordk "[]" df] by (auto simp: get_latest_from)
  from d k s l e t show ?thesis by blast
qed

theorem get_latest_records_one_per_key_witness:
  "get_latest_records fst snd [(1::nat, Some (5::nat)), (1, Some 7), (2, None), (1, Some 7), (2, Some 1)]
     = [(1, Some 7), (2, Some 1)]
   \<and> distinct (map fst (get_latest_records fst snd
         [(1::nat, Some (5::nat)), (1, Some 7), (2, None), (1, Some 7), (2, Some 1)]))
   \<and> length (get_latest_records fst snd
         [(1::nat, Some (5::nat)), (1, Some 7), (2, None), (1, Some 7), (2, Some 1)])
       = card (fst ` set [(1::nat, Some (5::nat)), (1, Some 7), (2, None), (1, Some 7), (2, Some 1)])"
proof -
  let ?df = "[(1::nat, Some (5::nat)), (1, Some 7), (2, None), (1, Some 7), (2, Some 1)]"
  note t = get_latest_records_one_per_key [of fst snd ?df]
  have ev: "get_latest_records fst snd ?df = [(1, Some 7), (2, Some 1)]"
    by (simp add: get_latest_records_def)
  from t have d: "distinct (map fst (get_latest_records fst snd ?df))" by (rule conjunct1)
  from t have l: "length (get_latest_records fst snd ?df) = card (fst ` set ?df)" by blast
  from ev d l show ?thesis by blast
qed

section \<open>Properties of the transformation\<close>

lemma join_condition_iff:
  "join_condition l r \<longleftrightarrow>
     purchase_id l \<noteq> None \<and> purchase_partition l \<noteq> None \<and> purchase_key l = info_key r"
  by (auto simp: join_condition_def purchase_key_def info_key_def is_true_def sql_and_def sql_eq_def
      split: option.splits)

lemma gmv_eligible_iff:
  "gmv_eligible j \<longleftrightarrow> release_date (fst j) \<noteq> None \<and> purchase_status (fst j) = Some ''APROVADA''"
  by (auto simp: gmv_eligible_def is_true_def sql_and_def sql_eq_def is_not_null_def
      split: option.splits)

lemma left_join_alt:
  "left_join ls rs =
     concat (map (\<lambda>l. if filter (join_condition l) rs = [] then [(l, None)]
                       else map (\<lambda>r. (l, Some r)) (filter (join_condition l) rs)) ls)"
  unfolding left_join_def
  by (rule arg_cong[where f=concat], rule map_cong) (auto split: list.splits)

lemma left_join_set:
  "set (left_join ls rs) =
     {(l, Some r) | l r. l \<in> set ls \<and> r \<in> set rs \<and> join_condition l r}
     \<union> {(l, None) | l. l \<in> set ls \<and> (\<forall>r\<in>set rs. \<not> join_condition l r)}"
  unfolding left_join_alt by (auto simp: filter_empty_conv split: if_splits)

lemma left_join_drop_unmatched:
  "left_join ls (filter (\<lambda>r. \<exists>l\<in>set ls. join_condition l r) rs) = left_join ls rs"
proof -
  have "filter (join_condition l) (filter (\<lambda>r. \<exists>l\<in>set ls. join_condition l r) rs)
      = filter (join_condition l) rs" if "l \<in> set ls" for l
    using that by (auto simp: filter_filter intro: filter_cong)
  then show ?thesis
    unfolding left_join_def by (auto intro!: arg_cong[where f=concat] map_cong)
qed

lemma left_join_cong_matches:
  assumes "\<And>l. l \<in> set ls \<Longrightarrow> filter (join_condition l) rs = filter (join_condition l) rs'"
  shows "left_join ls rs = left_join ls rs'"
  unfolding left_join_def using assms by (auto intro!: arg_cong[where f=concat] map_cong)

lemma latest_from_filter:
  "latest_from key ordk (filter (\<lambda>r. Q (key r)) pre) (filter (\<lambda>r. Q (key r)) xs)
     = filter (\<lambda>r. Q (key r)) (latest_from key ordk pre xs)"
proof (induction xs arbitrary: pre)
  case Nil
  then show ?case by (simp add: latest_from_Nil)
next
  case (Cons a xs)
  show ?case
  proof (cases "Q (key a)")
    case True
    then have "(\<forall>x\<in>set (filter (\<lambda>r. Q (key r)) pre). key x = key a \<longrightarrow> ordk x < ordk a)
        \<longleftrightarrow> (\<forall>x\<in>set pre. key x = key a \<longrightarrow> ordk x < ordk a)" by auto
    moreover from True have "(\<forall>x\<in>set (filter (\<lambda>r. Q (key r)) xs). key x = key a \<longrightarrow> ordk x \<le> ordk a)
        \<longleftrightarrow> (\<forall>x\<in>set xs. key x = key a \<longrightarrow> ordk x \<le> ordk a)" by auto
    ultimately show ?thesis
      using True Cons.IH[of "pre @ [a]"] by (simp add: latest_from_Cons)
  next
    case False
    then show ?thesis
      using Cons.IH[of "pre @ [a]"] by (simp add: latest_from_Cons)
  qed
qed

lemma get_latest_filter:
  "get_latest_records key ordk (filter (\<lambda>r. Q (key r)) df)
     = filter (\<lambda>r. Q (key r)) (get_latest_records key ordk df)"
  using latest_from_filter[of key ordk Q "[]" df] by (simp add: get_latest_from)


lemma left_join_fst:
  assumes "\<forall>l\<in>set ls. length (filter (join_condition l) rs) \<le> Suc 0"
  shows "map fst (left_join ls rs) = ls"
  using assms
proof (induction ls)
  case Nil
  then show ?case by (simp add: left_join_def)
next
  case (Cons l ls)
  from Cons.prems have "length (filter (join_condition l) rs) \<le> Suc 0" by simp
  then have "map fst (if filter (join_condition l) rs = [] then [(l, None)]
                else map (\<lambda>r. (l, Some r)) (filter (join_condition l) rs)) = [l]"
    by (cases "filter (join_condition l) rs") auto
  moreover from Cons have "map fst (left_join ls rs) = ls" by simp
  ultimately show ?case by (simp add: left_join_alt)
qed

lemma join_matches_le_one:
  assumes "distinct (map info_key rs)"
  shows "length (filter (join_condition l) rs) \<le> Suc 0"
proof -
  have "filter (join_condition l) rs
      = filter (join_condition l) (filter (\<lambda>r. info_key r = purchase_key l) rs)"
    by (auto simp: join_condition_iff intro: filter_cong)
  then have "length (filter (join_condition l) rs)
      \<le> length (filter (\<lambda>r. info_key r = purchase_key l) rs)"
    by (metis length_filter_le)
  also have "\<dots> \<le> Suc 0" using assms by (rule filter_key_le_one)
  finally show ?thesis .
qed

lemma transform_drop_unmatched:
  "transform_gmv_snapshot now purchase_df
       (filter (\<lambda>r. \<exists>l\<in>set purchase_df. join_condition l r) info_df)
     = transform_gmv_snapshot now purchase_df info_df"
proof -
  let ?lp = "get_latest_records purchase_key transaction_datetime purchase_df"
  let ?le = "get_latest_records info_key info_transaction_datetime info_df"
  let ?Q = "\<lambda>k. \<exists>l\<in>set purchase_df. purchase_id l \<noteq> None \<and> purchase_partition l \<noteq> None \<and> purchase_key l = k"
  have m: "(\<lambda>r. \<exists>l\<in>set purchase_df. join_condition l r) = (\<lambda>r. ?Q (info_key r))"
    by (simp add: join_condition_iff)
  have "get_latest_records info_key info_transaction_datetime (filter (\<lambda>r. ?Q (info_key r)) info_df)
      = filter (\<lambda>r. ?Q (info_key r)) ?le"
    by (rule get_latest_filter)
  moreover have "left_join ?lp (filter (\<lambda>r. ?Q (info_key r)) ?le) = left_join ?lp ?le"
  proof (rule left_join_cong_matches)
    fix l assume "l \<in> set ?lp"
    then have "l \<in> set purchase_df"
      using get_latest_subset[of purchase_key transaction_datetime purchase_df] by blast
    then have "join_condition l r \<Longrightarrow> ?Q (info_key r)" for r
      by (auto simp: join_condition_iff)
    then show "filter (join_condition l) (filter (\<lambda>r. ?Q (info_key r)) ?le)
        = filter (join_condition l) ?le"
      by (auto simp: filter_filter intro: filter_cong)
  qed
  ultimately show ?thesis
    unfolding m transform_gmv_snapshot_def by simp
qed

text \<open>The SQL sum, spelled out: NULL counts for nothing, and the sum of no value is NULL.\<close>

lemma sql_sum_values:
  "sql_sum vs =
     (if \<forall>v\<in>set vs. v = None then None
      else Some (\<Sum>v\<leftarrow>vs. case v of None \<Rightarrow> 0 | Some x \<Rightarrow> x))"
proof -
  have s: "sum_list (List.map_filter (\<lambda>v. v) vs) = (\<Sum>v\<leftarrow>vs. case v of None \<Rightarrow> 0 | Some x \<Rightarrow> x)"
    by (induction vs) (auto simp: List.map_filter_simps split: option.splits)
  have e: "List.map_filter (\<lambda>v. v) vs = [] \<longleftrightarrow> (\<forall>v\<in>set vs. v = None)"
    by (induction vs) (auto simp: List.map_filter_simps split: option.splits)
  show ?thesis
  proof (cases "List.map_filter (\<lambda>v. v) vs")
    case Nil
    with e show ?thesis by (simp add: sql_sum_def)
  next
    case (Cons x xs)
    with e have "\<not> (\<forall>v\<in>set vs. v = None)" by simp
    with Cons s show ?thesis by (simp add: sql_sum_def)
  qed
qed

lemma sql_sum_map:
  "sql_sum (map f xs) =
     (if \<forall>x\<in>set xs. f x = None then None
      else Some (\<Sum>x\<leftarrow>xs. case f x of None \<Rightarrow> 0 | Some v \<Rightarrow> v))"
  by (simp add: sql_sum_values o_def)

text \<open>
  Read as integers, the amounts are added and the result is brought back into the 64-bit
  range: the sum is the exact one as long as it fits, and wraps around when it does not.
\<close>

lemma signed_take_bit_add_right:
  "signed_take_bit n (a + signed_take_bit n b) = signed_take_bit n (a + b)" for a b :: int
proof -
  have "signed_take_bit n (a + signed_take_bit n b)
      = signed_take_bit n (signed_take_bit n a + signed_take_bit n (signed_take_bit n b))"
    by (simp only: signed_take_bit_add)
  also have "\<dots> = signed_take_bit n (signed_take_bit n a + signed_take_bit n b)"
    by simp
  also have "\<dots> = signed_take_bit n (a + b)"
    by (rule signed_take_bit_add)
  finally show ?thesis .
qed

lemma bigint_sum_wraps:
  fixes ws :: "bigint list"
  shows "sint (sum_list ws) = signed_take_bit 63 (\<Sum>w\<leftarrow>ws. sint w)"
proof (induction ws)
  case Nil
  then show ?case by simp
next
  case (Cons w ws)
  have "sint (w + sum_list ws) = signed_take_bit 63 (sint w + sint (sum_list ws))"
    by (simp add: sint_word_add)
  also have "\<dots> = signed_take_bit 63 (sint w + (\<Sum>w\<leftarrow>ws. sint w))"
    unfolding Cons.IH by (rule signed_take_bit_add_right)
  finally show ?case by simp
qed

lemma sql_sum_overflow:
  "map_option sint (sql_sum [Some 9223372036854775807, Some 1]) = Some (- 9223372036854775808)"
  by (simp add: sql_sum_def List.map_filter_simps)

lemma left_join_keeps_purchases: "fst ` set (left_join ls rs) = set ls"
proof
  show "fst ` set (left_join ls rs) \<subseteq> set ls"
    by (auto simp: left_join_set)
  show "set ls \<subseteq> fst ` set (left_join ls rs)"
  proof
    fix l assume l: "l \<in> set ls"
    show "l \<in> fst ` set (left_join ls rs)"
    proof (cases "\<exists>r\<in>set rs. join_condition l r")
      case True
      then obtain r where "r \<in> set rs" "join_condition l r" by blast
      with l have "(l, Some r) \<in> set (left_join ls rs)" by (simp add: left_join_set)
      then show ?thesis by (rule image_eqI[rotated]) simp
    next
      case False
      with l have "(l, None) \<in> set (left_join ls rs)" by (simp add: left_join_set)
      then show ?thesis by (rule image_eqI[rotated]) simp
    qed
  qed
qed


text \<open>
  Claim C6. In the left join on \<open>(purchase_id, purchase_partition)\<close>: an extra-information
  row appears in the result only beside a purchase it matches, and removing the rows that
  match no purchase changes neither the join nor the snapshot computed from the raw
  tables; a purchase that matches no extra-information row is kept, once for each time it
  occurs, with the columns of the right side NULL, and every purchase is kept (exactly
  once each when the right side has one row per key, as it has after deduplication).
\<close>

theorem left_join_discards_unmatched_info:
  "(\<forall>l r. (l, Some r) \<in> set (left_join ls rs) \<longrightarrow> l \<in> set ls \<and> r \<in> set rs \<and> join_condition l r)
   \<and> left_join ls (filter (\<lambda>r. \<exists>l\<in>set ls. join_condition l r) rs) = left_join ls rs
   \<and> transform_gmv_snapshot now purchase_df
         (filter (\<lambda>r. \<exists>l\<in>set purchase_df. join_condition l r) info_df)
       = transform_gmv_snapshot now purchase_df info_df
   \<and> (\<forall>l\<in>set ls. (\<forall>r\<in>set rs. \<not> join_condition l r) \<longrightarrow>
         (l, None) \<in> set (left_join ls rs) \<and> joined_subsidiary (l, None) = None
         \<and> (\<forall>r. (l, Some r) \<notin> set (left_join ls rs)))
   \<and> fst ` set (left_join ls rs) = set ls
   \<and> (distinct (map info_key rs) \<longrightarrow> map fst (left_join ls rs) = ls)"
proof (intro conjI)
  show "\<forall>l r. (l, Some r) \<in> set (left_join ls rs) \<longrightarrow> l \<in> set ls \<and> r \<in> set rs \<and> join_condition l r"
    by (simp add: left_join_set)
  show "left_join ls (filter (\<lambda>r. \<exists>l\<in>set ls. join_condition l r) rs) = left_join ls rs"
    by (rule left_join_drop_unmatched)
  show "transform_gmv_snapshot now purchase_df
         (filter (\<lambda>r. \<exists>l\<in>set purchase_df. join_condition l r) info_df)
       = transform_gmv_snapshot now purchase_df info_df"
    by (rule transform_drop_unmatched)
  show "\<forall>l\<in>set ls. (\<forall>r\<in>set rs. \<not> join_condition l r) \<longrightarrow>
         (l, None) \<in> set (left_join ls rs) \<and> joined_subsidiary (l, None) = None
         \<and> (\<forall>r. (l, Some r) \<notin> set (left_join ls rs))"
    by (simp add: left_join_set joined_subsidiary_def)
  show "fst ` set (left_join ls rs) = set ls"
    by (rule left_join_keeps_purchases)
  show "distinct (map info_key rs) \<longrightarrow> map fst (left_join ls rs) = ls"
    by (simp add: left_join_fst join_matches_le_one)
qed

lemma transform_rows:
  "transform_gmv_snapshot now purchase_df info_df =
     map (\<lambda>g. \<lparr>gmv_date = fst g, subsidiary = snd g,
                gmv_total_day = sql_sum (map (\<lambda>j. purchase_total_value (fst j))
                  (filter (\<lambda>j. group_key j = g)
                    (filter gmv_eligible
                      (left_join (get_latest_records purchase_key transaction_datetime purchase_df)
                                 (get_latest_records info_key info_transaction_datetime info_df))))),
                calculation_timestamp = now, is_latest = True\<rparr>)
       (remdups (map group_key (filter gmv_eligible
          (left_join (get_latest_records purchase_key transaction_datetime purchase_df)
                     (get_latest_records info_key info_transaction_datetime info_df)))))"
  by (simp add: transform_gmv_snapshot_def group_by_sum_def Let_def o_def)

text \<open>Every snapshot the transformation produces has current rows only and distinct keys.\<close>

lemma transform_rows_latest: "list_all is_latest (transform_gmv_snapshot now purchase_df info_df)"
  by (simp add: transform_rows list_all_iff)

lemma transform_unique_keys: "unique_keys (transform_gmv_snapshot now purchase_df info_df)"
  by (simp add: transform_rows unique_keys_def o_def gmv_key_def)

text \<open>
  The status is compared with the literal \<open>APROVADA\<close>, the code's word for "approved", and
  the comparison is exact: a purchase whose status reads \<open>approved\<close> is not eligible.
\<close>

lemma status_literal_is_exact:
  "\<not> gmv_eligible (purchase_of 11 7 10 3 5 ''approved'' 10, None)
   \<and> gmv_eligible (purchase_of 11 7 10 3 5 ''APROVADA'' 10, None)"
  by (simp add: gmv_eligible_def is_true_def sql_and_def sql_eq_def is_not_null_def)

text \<open>
  Claim C5. The snapshot has exactly one row per pair (release date, subsidiary) occurring
  among the eligible rows of the join of the deduplicated inputs, a row being eligible when
  its release date is not NULL and its status is the fixed literal of the code for
  "approved", \<open>APROVADA\<close>. The total of a row is the sum of \<open>purchase_total_value\<close> over
  exactly the eligible joined rows of its pair, of which there is at least one: the amounts
  that are not NULL are added as BIGINT values, and the total is NULL when every amount is.
  A row failing either condition is not among the rows summed, so it adds nothing to any
  total. The date of a snapshot row is not NULL, its \<open>is_latest\<close> is true and its
  calculation timestamp is the time of the computation.
\<close>

theorem transform_gmv_snapshot_sums_eligible:
  fixes purchase_df :: "purchase list" and info_df :: "purchase_extra_info list"
    and joined :: "joined_row list"
  defines "joined \<equiv> left_join (get_latest_records purchase_key transaction_datetime purchase_df)
                               (get_latest_records info_key info_transaction_datetime info_df)"
  shows "distinct (map gmv_key (transform_gmv_snapshot now purchase_df info_df))
    \<and> gmv_key ` set (transform_gmv_snapshot now purchase_df info_df)
        = group_key ` {j \<in> set joined. release_date (fst j) \<noteq> None
                                      \<and> purchase_status (fst j) = Some ''APROVADA''}
    \<and> (\<forall>row\<in>set (transform_gmv_snapshot now purchase_df info_df).
          (let summed = filter (\<lambda>j. release_date (fst j) \<noteq> None
                            \<and> purchase_status (fst j) = Some ''APROVADA''
                            \<and> release_date (fst j) = gmv_date row
                            \<and> joined_subsidiary j = subsidiary row) joined
           in summed \<noteq> []
            \<and> gmv_total_day row
              = (if \<forall>j\<in>set summed. purchase_total_value (fst j) = None then None
                 else Some (\<Sum>j\<leftarrow>summed. case purchase_total_value (fst j) of
                                             None \<Rightarrow> 0 | Some v \<Rightarrow> v)))
          \<and> gmv_date row \<noteq> None
          \<and> is_latest row
          \<and> calculation_timestamp row = now)"
proof -
  let ?out = "transform_gmv_snapshot now purchase_df info_df"
  let ?E = "filter gmv_eligible joined"
  have out: "?out = map (\<lambda>g. \<lparr>gmv_date = fst g, subsidiary = snd g,
                gmv_total_day = sql_sum (map (\<lambda>j. purchase_total_value (fst j))
                  (filter (\<lambda>j. group_key j = g) ?E)),
                calculation_timestamp = now, is_latest = True\<rparr>)
       (remdups (map group_key ?E))"
    unfolding joined_def by (rule transform_rows)
  have keys: "map gmv_key ?out = remdups (map group_key ?E)"
    unfolding out by (simp add: o_def gmv_key_def)
  have d: "distinct (map gmv_key ?out)" unfolding keys by simp
  have "set (map gmv_key ?out) = group_key ` set ?E" unfolding keys by simp
  then have k: "gmv_key ` set ?out = group_key ` {j \<in> set joined. release_date (fst j) \<noteq> None
                                      \<and> purchase_status (fst j) = Some ''APROVADA''}"
    by (simp add: gmv_eligible_iff)
  have r: "\<forall>row\<in>set ?out.
          (let summed = filter (\<lambda>j. release_date (fst j) \<noteq> None
                            \<and> purchase_status (fst j) = Some ''APROVADA''
                            \<and> release_date (fst j) = gmv_date row
                            \<and> joined_subsidiary j = subsidiary row) joined
           in summed \<noteq> []
            \<and> gmv_total_day row
              = (if \<forall>j\<in>set summed. purchase_total_value (fst j) = None then None
                 else Some (\<Sum>j\<leftarrow>summed. case purchase_total_value (fst j) of
                                             None \<Rightarrow> 0 | Some v \<Rightarrow> v)))
          \<and> gmv_date row \<noteq> None
          \<and> is_latest row
          \<and> calculation_timestamp row = now"
  proof
    fix row assume "row \<in> set ?out"
    then obtain g where g: "g \<in> group_key ` set ?E"
      and row: "row = \<lparr>gmv_date = fst g, subsidiary = snd g,
                gmv_total_day = sql_sum (map (\<lambda>j. purchase_total_value (fst j))
                  (filter (\<lambda>j. group_key j = g) ?E)),
                calculation_timestamp = now, is_latest = True\<rparr>"
      unfolding out by auto
    let ?G = "filter (\<lambda>j. release_date (fst j) \<noteq> None
                            \<and> purchase_status (fst j) = Some ''APROVADA''
                            \<and> release_date (fst j) = fst g
                            \<and> joined_subsidiary j = snd g) joined"
    have f: "filter (\<lambda>j. group_key j = g) ?E = ?G"
      by (auto simp: filter_filter gmv_eligible_iff group_key_def intro: filter_cong)
    from g obtain j where "j \<in> set ?E" "group_key j = g" by auto
    then have "j \<in> set (filter (\<lambda>j. group_key j = g) ?E)" by simp
    then have "j \<in> set ?G" unfolding f .
    then have ne: "?G \<noteq> []" by (metis empty_iff empty_set)
    from g have dn: "fst g \<noteq> None" by (auto simp: gmv_eligible_iff group_key_def)
    have t: "gmv_total_day row
        = (if \<forall>j\<in>set ?G. purchase_total_value (fst j) = None then None
           else Some (\<Sum>j\<leftarrow>?G. case purchase_total_value (fst j) of None \<Rightarrow> 0 | Some v \<Rightarrow> v))"
      unfolding row by (simp only: gmv_row.simps f sql_sum_map)
    have gd: "gmv_date row = fst g" "subsidiary row = snd g"
      and gl: "is_latest row" "calculation_timestamp row = now"
      by (simp_all add: row)
    show "(let summed = filter (\<lambda>j. release_date (fst j) \<noteq> None
                            \<and> purchase_status (fst j) = Some ''APROVADA''
                            \<and> release_date (fst j) = gmv_date row
                            \<and> joined_subsidiary j = subsidiary row) joined
           in summed \<noteq> []
            \<and> gmv_total_day row
              = (if \<forall>j\<in>set summed. purchase_total_value (fst j) = None then None
                 else Some (\<Sum>j\<leftarrow>summed. case purchase_total_value (fst j) of
                                             None \<Rightarrow> 0 | Some v \<Rightarrow> v)))
          \<and> gmv_date row \<noteq> None
          \<and> is_latest row
          \<and> calculation_timestamp row = now"
      unfolding Let_def gd by (intro conjI ne t dn gl)
  qed
  from d k r show ?thesis by blast
qed

section \<open>The transformation on concrete rows\<close>

lemmas sql_eval = is_true_def sql_and_def sql_eq_def is_not_null_def

theorem transform_gmv_snapshot_sums_eligible_witness:
  "transform_gmv_snapshot 99
      [purchase_of 11 7 5 3 5 ''PENDENTE'' 3,
       purchase_of 11 7 10 3 5 ''APROVADA'' 10,
       purchase_of 12 7 11 3 5 ''PENDENTE'' 7,
       purchase_of 13 7 12 3 5 ''APROVADA'' 5]
      [info_of 11 7 10 3 ''A'', info_of 12 7 11 3 ''A'', info_of 13 7 12 3 ''A'']
     = [gmv_row_of 5 (Some ''A'') 15 99 True]
   \<and> distinct (map gmv_key (transform_gmv_snapshot 99
      [purchase_of 11 7 5 3 5 ''PENDENTE'' 3,
       purchase_of 11 7 10 3 5 ''APROVADA'' 10,
       purchase_of 12 7 11 3 5 ''PENDENTE'' 7,
       purchase_of 13 7 12 3 5 ''APROVADA'' 5]
      [info_of 11 7 10 3 ''A'', info_of 12 7 11 3 ''A'', info_of 13 7 12 3 ''A'']))
   \<and> gmv_total_day (gmv_row_of 5 (Some ''A'') 15 99 True)
     = Some (\<Sum>j\<leftarrow>[(purchase_of 11 7 10 3 5 ''APROVADA'' 10, Some (info_of 11 7 10 3 ''A'')),
                     (purchase_of 13 7 12 3 5 ''APROVADA'' 5, Some (info_of 13 7 12 3 ''A''))].
               case purchase_total_value (fst j) of None \<Rightarrow> 0 | Some v \<Rightarrow> v)"
proof -
  let ?p0 = "purchase_of 11 7 5 3 5 ''PENDENTE'' 3"
  let ?p1 = "purchase_of 11 7 10 3 5 ''APROVADA'' 10"
  let ?p2 = "purchase_of 12 7 11 3 5 ''PENDENTE'' 7"
  let ?p3 = "purchase_of 13 7 12 3 5 ''APROVADA'' 5"
  let ?e1 = "info_of 11 7 10 3 ''A''"
  let ?e2 = "info_of 12 7 11 3 ''A''"
  let ?e3 = "info_of 13 7 12 3 ''A''"
  let ?row = "gmv_row_of 5 (Some ''A'') 15 99 True"
  let ?out = "transform_gmv_snapshot 99 [?p0, ?p1, ?p2, ?p3] [?e1, ?e2, ?e3]"
  have ev1: "get_latest_records purchase_key transaction_datetime [?p0, ?p1, ?p2, ?p3]
      = [?p1, ?p2, ?p3]"
    by (simp add: get_latest_records_def purchase_key_def)
  have ev2: "get_latest_records info_key info_transaction_datetime [?e1, ?e2, ?e3]
      = [?e1, ?e2, ?e3]"
    by (simp add: get_latest_records_def info_key_def)
  have ev3: "left_join [?p1, ?p2, ?p3] [?e1, ?e2, ?e3]
      = [(?p1, Some ?e1), (?p2, Some ?e2), (?p3, Some ?e3)]"
    by (simp add: left_join_def join_condition_def sql_eval)
  have ev4: "filter gmv_eligible [(?p1, Some ?e1), (?p2, Some ?e2), (?p3, Some ?e3)]
      = [(?p1, Some ?e1), (?p3, Some ?e3)]"
    by (simp add: gmv_eligible_def sql_eval)
  have ev5: "group_by_sum [(?p1, Some ?e1), (?p3, Some ?e3)] = [((Some 5, Some ''A''), Some 15)]"
    by (simp add: group_by_sum_def group_key_def joined_subsidiary_def sql_sum_def List.map_filter_simps)
  have ev: "?out = [?row]"
    unfolding transform_gmv_snapshot_def Let_def ev1 ev2 ev3 ev4 ev5 by simp
  note t = transform_gmv_snapshot_sums_eligible [of 99 "[?p0, ?p1, ?p2, ?p3]" "[?e1, ?e2, ?e3]"]
  from t have d: "distinct (map gmv_key ?out)"
    by (rule conjunct1)
  have summed: "filter (\<lambda>j. release_date (fst j) \<noteq> None
                            \<and> purchase_status (fst j) = Some ''APROVADA''
                            \<and> release_date (fst j) = gmv_date ?row
                            \<and> joined_subsidiary j = subsidiary ?row)
        [(?p1, Some ?e1), (?p2, Some ?e2), (?p3, Some ?e3)]
      = [(?p1, Some ?e1), (?p3, Some ?e3)]"
    by (simp add: joined_subsidiary_def)
  have "?row \<in> set ?out" unfolding ev by simp
  with t have "let summed = filter (\<lambda>j. release_date (fst j) \<noteq> None
                            \<and> purchase_status (fst j) = Some ''APROVADA''
                            \<and> release_date (fst j) = gmv_date ?row
                            \<and> joined_subsidiary j = subsidiary ?row)
                   (left_join (get_latest_records purchase_key transaction_datetime [?p0, ?p1, ?p2, ?p3])
                              (get_latest_records info_key info_transaction_datetime [?e1, ?e2, ?e3]))
           in summed \<noteq> []
            \<and> gmv_total_day ?row
              = (if \<forall>j\<in>set summed. purchase_total_value (fst j) = None then None
                 else Some (\<Sum>j\<leftarrow>summed. case purchase_total_value (fst j) of
                                             None \<Rightarrow> 0 | Some v \<Rightarrow> v))"
    by blast
  then have s: "gmv_total_day ?row
     = Some (\<Sum>j\<leftarrow>[(?p1, Some ?e1), (?p3, Some ?e3)].
               case purchase_total_value (fst j) of None \<Rightarrow> 0 | Some v \<Rightarrow> v)"
    unfolding Let_def ev1 ev2 ev3 summed by simp
  from ev d s show ?thesis by (intro conjI)
qed

theorem left_join_discards_unmatched_info_witness:
  "left_join [purchase_of 11 7 10 3 5 ''APROVADA'' 10,
              purchase_of 12 7 11 3 5 ''PENDENTE'' 5]
             [info_of 11 7 10 3 ''A'',
              info_of 19 7 12 3 ''B'']
     = [(purchase_of 11 7 10 3 5 ''APROVADA'' 10,
         Some (info_of 11 7 10 3 ''A'')),
        (purchase_of 12 7 11 3 5 ''PENDENTE'' 5, None)]
   \<and> left_join [purchase_of 11 7 10 3 5 ''APROVADA'' 10,
              purchase_of 12 7 11 3 5 ''PENDENTE'' 5]
             [info_of 11 7 10 3 ''A'']
     = left_join [purchase_of 11 7 10 3 5 ''APROVADA'' 10,
              purchase_of 12 7 11 3 5 ''PENDENTE'' 5]
             [info_of 11 7 10 3 ''A'',
              info_of 19 7 12 3 ''B'']"
proof -
  let ?p1 = "purchase_of 11 7 10 3 5 ''APROVADA'' 10"
  let ?p2 = "purchase_of 12 7 11 3 5 ''PENDENTE'' 5"
  let ?e1 = "info_of 11 7 10 3 ''A''"
  let ?e3 = "info_of 19 7 12 3 ''B''"
  have ev: "left_join [?p1, ?p2] [?e1, ?e3] = [(?p1, Some ?e1), (?p2, None)]"
    by (simp add: left_join_def join_condition_def sql_eval)
  have f: "filter (\<lambda>r. \<exists>l\<in>set [?p1, ?p2]. join_condition l r) [?e1, ?e3] = [?e1]"
    by (simp add: join_condition_def sql_eval)
  from left_join_discards_unmatched_info [of "[?p1, ?p2]" "[?e1, ?e3]"]
  have "left_join [?p1, ?p2] (filter (\<lambda>r. \<exists>l\<in>set [?p1, ?p2]. join_condition l r) [?e1, ?e3])
      = left_join [?p1, ?p2] [?e1, ?e3]"
    by (rule conjunct2 [THEN conjunct1])
  then have "left_join [?p1, ?p2] [?e1] = left_join [?p1, ?p2] [?e1, ?e3]"
    unfolding f .
  with ev show ?thesis by (rule conjI)
qed

section \<open>Properties of the merge\<close>

text \<open>
  The condition of the merge holds of a target row and a source row only when they agree
  on a key without NULL and the target row is current.
\<close>

lemma merge_condition_iff:
  "merge_condition t s \<longleftrightarrow>
     gmv_date t \<noteq> None \<and> subsidiary t \<noteq> None \<and> gmv_key t = gmv_key s \<and> is_latest t"
  by (auto simp: merge_condition_def gmv_key_def is_true_def sql_and_def sql_eq_def split: option.splits)

lemma merge_condition_key: "merge_condition t s \<Longrightarrow> gmv_key s = gmv_key t"
  by (simp add: merge_condition_iff)

lemma merge_condition_null_subsidiary: "subsidiary t = None \<Longrightarrow> \<not> merge_condition t s"
  by (simp add: merge_condition_iff)

lemma matches_le_one:
  assumes "unique_keys df"
  shows "length (filter (merge_condition t) df) \<le> Suc 0"
proof -
  have "filter (merge_condition t) df = filter (merge_condition t) (filter (\<lambda>s. gmv_key s = gmv_key t) df)"
    by (auto simp: merge_condition_key intro: filter_cong)
  then have "length (filter (merge_condition t) df) \<le> length (filter (\<lambda>s. gmv_key s = gmv_key t) df)"
    by (metis length_filter_le)
  also have "\<dots> \<le> Suc 0" using assms unfolding unique_keys_def by (rule filter_key_le_one)
  finally show ?thesis .
qed

lemma merge_supersede_unique:
  "unique_keys df \<Longrightarrow> merge_supersede target df = Inr (map (when_matched_update df) target)"
  using matches_le_one[of df]
  by (auto simp: merge_supersede_def when_matched_update_def list_ex_iff not_less[symmetric])

lemma merge_supersede_cases:
  "merge_supersede target df = Inl MultipleSourceRowsMatched \<or>
   merge_supersede target df = Inr (map (when_matched_update df) target)"
  by (auto simp: merge_supersede_def when_matched_update_def)

lemma supersede_key: "gmv_key (when_matched_update df t) = gmv_key t"
  by (simp add: when_matched_update_def gmv_key_def)

lemma no_match_other: "gmv_key t \<notin> gmv_key ` set df \<Longrightarrow> \<not> list_ex (merge_condition t) df"
  by (metis list_ex_iff merge_condition_key imageI)

lemma supersede_other: "gmv_key t \<notin> gmv_key ` set df \<Longrightarrow> when_matched_update df t = t"
  by (simp add: when_matched_update_def no_match_other)

lemma supersede_not_latest: "\<not> is_latest t \<Longrightarrow> when_matched_update df t = t"
  by (auto simp: when_matched_update_def list_ex_iff merge_condition_iff)

lemma supersede_still_not_latest: "\<not> is_latest t \<Longrightarrow> \<not> is_latest (when_matched_update df t)"
  by (simp add: supersede_not_latest)

section \<open>Properties of the load\<close>

text \<open>
  The existence check is false for the name of the job's table, so a load with rows never
  reaches the merge: it creates the destination where there is none, and where there is
  one it fails at \<open>saveAsTable\<close> and writes nothing.
\<close>

lemma load_absent_creates:
  "df \<noteq> [] \<Longrightarrow>
     load_data_to_delta df None
       = (Some \<lparr>partition_columns = [''gmv_date''], table_rows = df\<rparr>, None)"
  by (simp add: load_data_to_delta_def is_delta_table_def)

lemma load_existing_raises:
  "df \<noteq> [] \<Longrightarrow>
     load_data_to_delta df (Some t) = (Some t, Some (TableAlreadyExists target_table_name))"
  by (simp add: load_data_to_delta_def is_delta_table_def)

lemma load_existing_unchanged: "fst (load_data_to_delta df (Some t)) = Some t"
  by (simp add: load_data_to_delta_def is_delta_table_def)


text \<open>
  Claim C7. With an empty snapshot the load is a no-op for every destination state, existing
  or not: the state afterwards is the state before (no row changed, none appended, no table
  created) and nothing is raised.
\<close>

theorem load_empty_snapshot_noop: "load_data_to_delta [] target = (target, None)"
  by (simp add: load_data_to_delta_def)

text \<open>
  Claim C8. With a non-empty snapshot and no destination, the load creates the destination
  partitioned by \<open>gmv_date\<close>, its rows the snapshot's rows verbatim, so that every row has
  \<open>is_latest = true\<close> as every row of a snapshot has; no row is superseded.
\<close>

theorem load_creates_destination:
  assumes "df \<noteq> []" and "list_all is_latest df"
  shows "\<exists>created. load_data_to_delta df None = (Some created, None)
           \<and> partition_columns created = [''gmv_date'']
           \<and> table_rows created = df
           \<and> list_all is_latest (table_rows created)"
  using assms by (simp add: load_absent_creates)

text \<open>
  Claim C3. For every existing destination and every snapshot (non-empty or not), a
  destination row whose key \<open>(gmv_date, subsidiary)\<close> is the key of no snapshot row is left as
  it was by the load, at its place, \<open>is_latest\<close> included, and the rows with such
  keys are the same before and after; the table stays partitioned as it was.
\<close>

theorem load_keeps_other_keys:
  "\<exists>t'. fst (load_data_to_delta df (Some t)) = Some t'
     \<and> partition_columns t' = partition_columns t
     \<and> (\<forall>i<length (table_rows t). gmv_key (table_rows t ! i) \<notin> gmv_key ` set df \<longrightarrow>
           i < length (table_rows t') \<and> table_rows t' ! i = table_rows t ! i)
     \<and> filter (\<lambda>r. gmv_key r \<notin> gmv_key ` set df) (table_rows t')
         = filter (\<lambda>r. gmv_key r \<notin> gmv_key ` set df) (table_rows t)"
proof -
  have "fst (load_data_to_delta df (Some t)) = Some t"
    by (rule load_existing_unchanged)
  then show ?thesis by (intro exI[of _ t]) simp
qed


section \<open>The load on concrete tables\<close>

lemmas load_eval = load_data_to_delta_def is_delta_table_def target_table_name_def

theorem load_empty_snapshot_noop_witness:
  "load_data_to_delta [] None = (None, None)
   \<and> load_data_to_delta [] (Some (gmv_table_of [gmv_row_of 1 (Some ''A'') 10 100 True]))
       = (Some (gmv_table_of [gmv_row_of 1 (Some ''A'') 10 100 True]), None)"
  using load_empty_snapshot_noop [of None]
    load_empty_snapshot_noop [of "Some (gmv_table_of [gmv_row_of 1 (Some ''A'') 10 100 True])"]
  by (rule conjI)

theorem load_creates_destination_witness:
  "load_data_to_delta [gmv_row_of 1 (Some ''A'') 10 100 True] None
     = (Some (gmv_table_of [gmv_row_of 1 (Some ''A'') 10 100 True]), None)"
proof -
  let ?df = "[gmv_row_of 1 (Some ''A'') 10 100 True]"
  have ne: "?df \<noteq> []" by simp
  have al: "list_all is_latest ?df" by simp
  from load_creates_destination [OF ne al] obtain created where
    c: "load_data_to_delta ?df None = (Some created, None)"
      "partition_columns created = [''gmv_date'']" "table_rows created = ?df"
    by blast
  from c(2,3) have "created = (gmv_table_of [gmv_row_of 1 (Some ''A'') 10 100 True])"
    by (cases created) simp
  with c(1) show ?thesis by simp
qed

theorem load_keeps_other_keys_witness:
  "gmv_key (gmv_row_of 1 (Some ''B'') 7 100 True)
     \<notin> gmv_key ` set [gmv_row_of 1 (Some ''A'') 12 120 True]
   \<and> (\<exists>t'. fst (load_data_to_delta [gmv_row_of 1 (Some ''A'') 12 120 True]
                (Some (gmv_table_of [gmv_row_of 1 (Some ''B'') 7 100 True, gmv_row_of 1 (Some ''A'') 10 100 True]))) = Some t'
          \<and> table_rows t' ! 0 = (gmv_row_of 1 (Some ''B'') 7 100 True)
          \<and> is_latest (table_rows t' ! 0))"
proof -
  let ?df = "[gmv_row_of 1 (Some ''A'') 12 120 True]"
  let ?t = "gmv_table_of [gmv_row_of 1 (Some ''B'') 7 100 True, gmv_row_of 1 (Some ''A'') 10 100 True]"
  have k: "gmv_key (table_rows ?t ! 0) \<notin> gmv_key ` set ?df"
    by (simp add: gmv_key_def)
  from load_keeps_other_keys [of ?df ?t] obtain t' where
    t': "fst (load_data_to_delta ?df (Some ?t)) = Some t'"
      "\<forall>i<length (table_rows ?t). gmv_key (table_rows ?t ! i) \<notin> gmv_key ` set ?df \<longrightarrow>
           i < length (table_rows t') \<and> table_rows t' ! i = table_rows ?t ! i"
    by blast
  have "0 < length (table_rows ?t)" by simp
  with t'(2) k have "table_rows t' ! 0 = table_rows ?t ! 0" by blast
  then have r: "table_rows t' ! 0 = (gmv_row_of 1 (Some ''B'') 7 100 True)"
    by simp
  then have "is_latest (table_rows t' ! 0)" by simp
  with k t'(1) r show ?thesis by auto
qed


text \<open>
  Claim C2, at an input where the code departs from it. The destination holds the current
  row of day 1 and subsidiary A with the total 10, and the snapshot has the row of the same
  key with the total 12. The existence check answers false for the table's name, the load
  takes the branch that creates the table, \<open>saveAsTable\<close> refuses the table that is there,
  and the destination is left with its one row, still current: nothing is superseded and
  nothing is appended.
\<close>

theorem load_existing_destination_raises:
  "load_data_to_delta [gmv_row_of 1 (Some ''A'') 12 120 True]
      (Some (gmv_table_of [gmv_row_of 1 (Some ''A'') 10 100 True]))
     = (Some (gmv_table_of [gmv_row_of 1 (Some ''A'') 10 100 True]),
        Some (TableAlreadyExists ''silver.fct_gmv_diario''))"
  by (simp add: load_eval)

text \<open>
  Claim C9, where the code departs from it. Loading the same snapshot a second time leaves
  the destination as the first load left it, for every snapshot and every destination
  state: a load into an existing destination fails at \<open>saveAsTable\<close> and appends nothing.
\<close>

theorem load_twice_same_as_once:
  "fst (load_data_to_delta df (fst (load_data_to_delta df target)))
     = fst (load_data_to_delta df target)"
proof (cases target)
  case None
  then show ?thesis
    by (cases "df = []") (simp_all add: load_data_to_delta_def load_absent_creates load_existing_unchanged)
next
  case (Some t)
  then show ?thesis by (simp add: load_existing_unchanged)
qed

section \<open>Properties of the job\<close>

text \<open>
  Claim C10. The result of a run does not depend on the rows of \<open>bronze.product_item\<close>: two
  catalogs that differ only in the content of that table give the same snapshot (or the
  same extraction error), the same destination afterwards and the same outcome.
\<close>

theorem run_ignores_product_item:
  "silver_fct_gmv_diario (fst (run processing_date now (cat\<lparr>bronze_product_item := Some items\<rparr>)))
     = silver_fct_gmv_diario (fst (run processing_date now (cat\<lparr>bronze_product_item := Some items'\<rparr>)))
   \<and> snd (run processing_date now (cat\<lparr>bronze_product_item := Some items\<rparr>))
     = snd (run processing_date now (cat\<lparr>bronze_product_item := Some items'\<rparr>))
   \<and> (case extract_source_data processing_date (cat\<lparr>bronze_product_item := Some items\<rparr>) of
         Inl e \<Rightarrow> Inl e | Inr (p, _, i) \<Rightarrow> Inr (transform_gmv_snapshot now p i))
     = (case extract_source_data processing_date (cat\<lparr>bronze_product_item := Some items'\<rparr>) of
         Inl e \<Rightarrow> Inl e | Inr (p, _, i) \<Rightarrow> Inr (transform_gmv_snapshot now p i))"
  by (auto simp: run_def extract_source_data_def Let_def split: option.splits prod.splits)

text \<open>
  The job itself runs into the refusal. A first run creates the destination; the run of the
  next day computes a snapshot with rows, finds the destination there, and fails at
  \<open>saveAsTable\<close>, leaving the destination as the first run made it.
\<close>

lemma run_second_day_raises:
  "run 3 100 (catalog_of [purchase_of 11 7 10 3 5 ''APROVADA'' 10, purchase_of 12 7 20 4 5 ''APROVADA'' 20] (Some []) [] None)
     = (catalog_of [purchase_of 11 7 10 3 5 ''APROVADA'' 10, purchase_of 12 7 20 4 5 ''APROVADA'' 20] (Some []) [] (Some (gmv_table_of [gmv_row_of 5 None 10 100 True])), None)
   \<and> run 4 200 (catalog_of [purchase_of 11 7 10 3 5 ''APROVADA'' 10, purchase_of 12 7 20 4 5 ''APROVADA'' 20] (Some []) [] (Some (gmv_table_of [gmv_row_of 5 None 10 100 True])))
     = (catalog_of [purchase_of 11 7 10 3 5 ''APROVADA'' 10, purchase_of 12 7 20 4 5 ''APROVADA'' 20] (Some []) [] (Some (gmv_table_of [gmv_row_of 5 None 10 100 True])),
        Some (TableAlreadyExists ''silver.fct_gmv_diario''))"
proof -
  let ?q1 = "purchase_of 11 7 10 3 5 ''APROVADA'' 10"
  let ?q2 = "purchase_of 12 7 20 4 5 ''APROVADA'' 20"
  let ?n10 = "gmv_row_of 5 None 10 100 True"
  let ?n20 = "gmv_row_of 5 None 20 200 True"
  let ?c0 = "catalog_of [?q1, ?q2] (Some []) [] None"
  let ?c1 = "catalog_of [?q1, ?q2] (Some []) [] (Some (gmv_table_of [?n10]))"
  have x1: "extract_source_data 3 ?c0 = Inr ([?q1], [], [])"
    by (simp add: extract_source_data_def sql_eval)
  have x2: "extract_source_data 4 ?c1 = Inr ([?q2], [], [])"
    by (simp add: extract_source_data_def sql_eval)
  have g1: "get_latest_records purchase_key transaction_datetime [?q1] = [?q1]"
    by (simp add: get_latest_records_def)
  have g2: "get_latest_records purchase_key transaction_datetime [?q2] = [?q2]"
    by (simp add: get_latest_records_def)
  have g0: "get_latest_records info_key info_transaction_datetime [] = []"
    by (simp add: get_latest_records_def)
  have j1: "left_join [?q1] [] = [(?q1, None)]" by (simp add: left_join_def)
  have j2: "left_join [?q2] [] = [(?q2, None)]" by (simp add: left_join_def)
  have f1: "filter gmv_eligible [(?q1, None)] = [(?q1, None)]"
    by (simp add: gmv_eligible_def sql_eval)
  have f2: "filter gmv_eligible [(?q2, None)] = [(?q2, None)]"
    by (simp add: gmv_eligible_def sql_eval)
  have s1: "group_by_sum [(?q1, None)] = [((Some 5, None), Some 10)]"
    by (simp add: group_by_sum_def group_key_def joined_subsidiary_def sql_sum_def List.map_filter_simps)
  have s2: "group_by_sum [(?q2, None)] = [((Some 5, None), Some 20)]"
    by (simp add: group_by_sum_def group_key_def joined_subsidiary_def sql_sum_def List.map_filter_simps)
  have t1: "transform_gmv_snapshot 100 [?q1] [] = [?n10]"
    unfolding transform_gmv_snapshot_def Let_def g1 g0 j1 f1 s1 by simp
  have t2: "transform_gmv_snapshot 200 [?q2] [] = [?n20]"
    unfolding transform_gmv_snapshot_def Let_def g2 g0 j2 f2 s2 by simp
  have l1: "load_data_to_delta [?n10] None = (Some (gmv_table_of [?n10]), None)"
    by (simp add: load_eval)
  have l2: "load_data_to_delta [?n20] (Some (gmv_table_of [?n10]))
      = (Some (gmv_table_of [?n10]), Some (TableAlreadyExists ''silver.fct_gmv_diario''))"
    by (simp add: load_eval)
  have r1: "run 3 100 ?c0 = (?c1, None)"
    unfolding run_def x1 by (simp add: t1 l1)
  have r2: "run 4 200 ?c1 = (?c1, Some (TableAlreadyExists ''silver.fct_gmv_diario''))"
    unfolding run_def x2 by (simp add: t2 l2)
  from r1 r2 show ?thesis by (rule conjI)
qed

theorem run_ignores_product_item_witness:
  "snd (run 3 100 ((catalog_of [purchase_of 11 7 10 3 5 ''APROVADA'' 10, purchase_of 12 7 20 4 5 ''APROVADA'' 20] (Some []) [] None)\<lparr>bronze_product_item := Some []\<rparr>))
     = snd (run 3 100 ((catalog_of [purchase_of 11 7 10 3 5 ''APROVADA'' 10, purchase_of 12 7 20 4 5 ''APROVADA'' 20] (Some []) [] None)\<lparr>bronze_product_item := Some [item_of 11 10 3 10]\<rparr>))
   \<and> silver_fct_gmv_diario (fst (run 3 100 ((catalog_of [purchase_of 11 7 10 3 5 ''APROVADA'' 10, purchase_of 12 7 20 4 5 ''APROVADA'' 20] (Some []) [] None)\<lparr>bronze_product_item := Some []\<rparr>)))
     = silver_fct_gmv_diario (fst (run 3 100 ((catalog_of [purchase_of 11 7 10 3 5 ''APROVADA'' 10, purchase_of 12 7 20 4 5 ''APROVADA'' 20] (Some []) [] None)\<lparr>bronze_product_item := Some [item_of 11 10 3 10]\<rparr>)))"
proof -
  let ?c = "(catalog_of [purchase_of 11 7 10 3 5 ''APROVADA'' 10, purchase_of 12 7 20 4 5 ''APROVADA'' 20] (Some []) [] None)"
  let ?it = "item_of 11 10 3 10"
  note t = run_ignores_product_item
    [where processing_date = 3 and now = 100 and cat = ?c and items = "[]" and items' = "[?it]"]
  from t have a: "snd (run 3 100 (?c\<lparr>bronze_product_item := Some []\<rparr>))
     = snd (run 3 100 (?c\<lparr>bronze_product_item := Some [?it]\<rparr>))"
    by (rule conjunct2 [THEN conjunct1])
  from t have b: "silver_fct_gmv_diario (fst (run 3 100 (?c\<lparr>bronze_product_item := Some []\<rparr>)))
     = silver_fct_gmv_diario (fst (run 3 100 (?c\<lparr>bronze_product_item := Some [?it]\<rparr>)))"
    by (rule conjunct1)
  from a b show ?thesis by (rule conjI)
qed

text \<open>The table \<open>bronze.product_item\<close> must exist all the same: without it the extraction fails.\<close>

lemma run_needs_product_item_table:
  "run 3 100 (catalog_of [purchase_of 11 7 10 3 5 ''APROVADA'' 10, purchase_of 12 7 20 4 5 ''APROVADA'' 20] None [] None)
     = ((catalog_of [purchase_of 11 7 10 3 5 ''APROVADA'' 10, purchase_of 12 7 20 4 5 ''APROVADA'' 20] None [] None), Some (TableNotFound ''bronze.product_item''))"
  by (simp add: run_def extract_source_data_def)

end
